theory Spec2Isabelle
  imports Complex_Main
begin

section \<open>Data model\<close>

text \<open>
  An observation array is a list of frames, each frame a list of features; Python floats
  are idealised as reals. The pair \<open>(X, lengths)\<close> is the input format of the sequence
  model: the concatenated frames and the frame count of every component sequence.
\<close>

type_synonym frame = "real list"
type_synonym sequence = "frame list"
type_synonym Xlengths = "frame list \<times> nat list"

text \<open>Exceptions are values. Every one of them is a subclass of Python's \<open>Exception\<close>.\<close>

datatype error =
    FitFailure
  | ScoreFailure
  | AttributeError
  | IndexError
  | ZeroDivisionError
  | NameError
  | KeyError

text \<open>What the code writes to standard output, one event per \<open>print\<close>.\<close>

datatype event =
    ModelCreated string int
  | FailureOn string int
  | Printed error

text \<open>
  The sequence model (hmmlearn's \<open>GaussianHMM\<close>) is an opaque collaborator with a
  \<open>fit\<close> and a \<open>score\<close> capability, each of which may raise. \<open>hmm_fit n seed (X, lengths)\<close>
  stands for \<open>GaussianHMM(n_components=n, covariance_type="diag", n_iter=1000,
  random_state=seed, verbose=False).fit(X, lengths)\<close>, and \<open>hmm_score m (X, lengths)\<close> for
  \<open>m.score(X, lengths)\<close>. A score that is returned is a finite log-likelihood, as the
  contract of the collaborator has it; a score that cannot be computed is an exception.
  With a fixed seed the fit is a function of its arguments.
\<close>

record 'm GaussianHMM =
  hmm_fit :: "int \<Rightarrow> int \<Rightarrow> Xlengths \<Rightarrow> error + 'm"
  hmm_score :: "'m \<Rightarrow> Xlengths \<Rightarrow> error + real"

text \<open>
  The fields of \<open>ModelSelector\<close>. The two dictionaries are association lists in insertion
  order, which is the order \<open>items()\<close> iterates in.
\<close>

record ModelSelector =
  words :: "(string \<times> sequence list) list"
  hwords :: "(string \<times> Xlengths) list"
  sequences :: "sequence list"
  X :: "frame list"
  lengths :: "nat list"
  this_word :: string
  n_constant :: int
  min_n_components :: int
  max_n_components :: int
  random_state :: int
  verbose :: bool

text \<open>\<open>ModelSelector.__init__\<close>: both dictionary lookups raise \<open>KeyError\<close> on a missing word.\<close>

definition ModelSelector_init ::
  "(string \<times> sequence list) list \<Rightarrow> (string \<times> Xlengths) list \<Rightarrow> string \<Rightarrow>
   int \<Rightarrow> int \<Rightarrow> int \<Rightarrow> int \<Rightarrow> bool \<Rightarrow> error + ModelSelector" where
  "ModelSelector_init all_word_sequences all_word_Xlengths word nc mn mx seed verb =
     (case map_of all_word_sequences word of
        None \<Rightarrow> Inl KeyError
      | Some seqs \<Rightarrow>
          (case map_of all_word_Xlengths word of
             None \<Rightarrow> Inl KeyError
           | Some (x, ls) \<Rightarrow>
               Inr \<lparr>words = all_word_sequences, hwords = all_word_Xlengths,
                    sequences = seqs, X = x, lengths = ls, this_word = word,
                    n_constant = nc, min_n_components = mn, max_n_components = mx,
                    random_state = seed, verbose = verb\<rparr>))"

text \<open>
  \<open>float("-inf")\<close> is the only non-finite value the selectors and the recogniser create:
  the running best score is either that sentinel or a finite score.
\<close>

datatype bound = NegInf | Fin real

fun gt :: "real \<Rightarrow> bound \<Rightarrow> bool" where
  "gt s NegInf = True"
| "gt s (Fin b) = (b < s)"

fun ge :: "real \<Rightarrow> bound \<Rightarrow> bool" where
  "ge s NegInf = True"
| "ge s (Fin b) = (b \<le> s)"

text \<open>Python's \<open>range(a, b)\<close> over integers.\<close>

definition range_py :: "int \<Rightarrow> int \<Rightarrow> int list" where
  "range_py a b = [a..b - 1]"

text \<open>The locals of a \<open>select\<close> loop.\<close>

record 'm best =
  best_num_states :: int
  best_score :: bound
  best_model :: "'m option"

section \<open>ModelSelector.base_model and SelectorConstant\<close>

text \<open>
  \<open>base_model\<close> wraps the fit in a bare \<open>except\<close>: a failed fit is the value \<open>None\<close>.
  The result is the text printed and the model.
\<close>

definition base_model ::
  "'m GaussianHMM \<Rightarrow> ModelSelector \<Rightarrow> int \<Rightarrow> event list \<times> 'm option" where
  "base_model H S num_states =
     (case hmm_fit H num_states (random_state S) (X S, lengths S) of
        Inr hmm_model \<Rightarrow>
          (if verbose S then [ModelCreated (this_word S) num_states] else [], Some hmm_model)
      | Inl e \<Rightarrow>
          (if verbose S then [FailureOn (this_word S) num_states] else [], None))"

text \<open>
  Every \<open>select\<close> returns the text printed and either an exception that left the call
  (\<open>Inl\<close>) or the value returned (\<open>Inr\<close>), a model or \<open>None\<close>.
\<close>

definition SelectorConstant_select ::
  "'m GaussianHMM \<Rightarrow> ModelSelector \<Rightarrow> event list \<times> (error + 'm option)" where
  "SelectorConstant_select H S =
     (let best_num_components = n_constant S in
      case base_model H S best_num_components of (out, r) \<Rightarrow> (out, Inr r))"

section \<open>SelectorBIC\<close>

text \<open>
  \<open>bic_model\<close>: \<open>self.X[0]\<close> raises on an empty array, \<open>hmm_model.score\<close> raises when the
  fit failed (the model is \<open>None\<close>) or when scoring fails. \<open>math.log\<close> is reached with at
  least one frame only.
\<close>

definition bic_model ::
  "'m GaussianHMM \<Rightarrow> ModelSelector \<Rightarrow> int \<Rightarrow> event list \<times> (error + real \<times> 'm)" where
  "bic_model H S num_states =
     (case base_model H S num_states of (out, hmm_model) \<Rightarrow>
        (case X S of
           [] \<Rightarrow> (out, Inl IndexError)
         | x0 # _ \<Rightarrow>
             (let p = num_states * num_states + 2 * num_states * int (length x0) - 1 in
              case hmm_model of
                None \<Rightarrow> (out, Inl AttributeError)
              | Some m \<Rightarrow>
                  (case hmm_score H m (X S, lengths S) of
                     Inl e \<Rightarrow> (out, Inl e)
                   | Inr logL \<Rightarrow>
                       (let logN = ln (real (length (X S)));
                            bic = - 2 * logL + real_of_int p * logN
                        in (out, Inr (bic, m)))))))"

text \<open>
  One iteration of the loop of \<open>SelectorBIC.select\<close>. The handler of the inner \<open>try\<close>
  formats the name \<open>num_states\<close> when \<open>verbose\<close> is set; \<open>select\<close> has no such name, so
  the handler itself raises \<open>NameError\<close>, which leaves the loop.
\<close>

definition bic_iteration ::
  "'m GaussianHMM \<Rightarrow> ModelSelector \<Rightarrow> int \<Rightarrow> 'm best \<Rightarrow> event list \<times> (error + 'm best)" where
  "bic_iteration H S n st =
     (case bic_model H S n of
        (out, Inr (score, model)) \<Rightarrow>
          (out, Inr (if gt score (best_score st)
                     then st\<lparr>best_score := Fin score, best_num_states := n,
                             best_model := Some model\<rparr>
                     else st))
      | (out, Inl e) \<Rightarrow>
          (if verbose S then (out, Inl NameError) else (out, Inr st)))"

fun bic_loop ::
  "'m GaussianHMM \<Rightarrow> ModelSelector \<Rightarrow> int list \<Rightarrow> 'm best \<Rightarrow> event list \<times> (error + 'm best)" where
  "bic_loop H S [] st = ([], Inr st)"
| "bic_loop H S (n # ns) st =
     (case bic_iteration H S n st of
        (out, Inl e) \<Rightarrow> (out, Inl e)
      | (out, Inr st') \<Rightarrow> (case bic_loop H S ns st' of (out', r) \<Rightarrow> (out @ out', r)))"

text \<open>\<open>SelectorBIC.select\<close>: the outer bare \<open>except\<close> turns any exception into \<open>None\<close>.\<close>

definition SelectorBIC_select ::
  "'m GaussianHMM \<Rightarrow> ModelSelector \<Rightarrow> event list \<times> (error + 'm option)" where
  "SelectorBIC_select H S =
     (case base_model H S (n_constant S) of (out0, m0) \<Rightarrow>
        (case bic_loop H S (range_py (min_n_components S) (max_n_components S))
                \<lparr>best_num_states = 1, best_score = NegInf, best_model = m0\<rparr> of
           (out, Inl e) \<Rightarrow> (out0 @ out, Inr None)
         | (out, Inr st) \<Rightarrow>
             (out0 @ out @
                (if verbose S then [ModelCreated (this_word S) (best_num_states st)] else []),
              Inr (best_model st))))"

section \<open>SelectorDIC\<close>

text \<open>
  The loop of \<open>anti_dic_score\<close> over \<open>self.hwords.items()\<close>: every word but \<open>this_word\<close> is
  scored with the same model; a scoring failure leaves the loop as an exception.
\<close>

fun anti_dic_loop ::
  "'m GaussianHMM \<Rightarrow> ModelSelector \<Rightarrow> 'm \<Rightarrow> (string \<times> Xlengths) list \<Rightarrow> real \<times> nat \<Rightarrow>
   error + real \<times> nat" where
  "anti_dic_loop H S hmm_model [] acc = Inr acc"
| "anti_dic_loop H S hmm_model ((word, features) # rest) (total_score, word_count) =
     (if this_word S \<noteq> word then
        (case hmm_score H hmm_model features of
           Inl e \<Rightarrow> Inl e
         | Inr score \<Rightarrow>
             anti_dic_loop H S hmm_model rest (total_score + score, word_count + 1))
      else anti_dic_loop H S hmm_model rest (total_score, word_count))"

text \<open>
  With no other word the division is \<open>0 / 0\<close> on Python integers, which raises. The
  method is only reached with a fitted model: \<open>dic_model\<close> has scored it before.
\<close>

definition anti_dic_score ::
  "'m GaussianHMM \<Rightarrow> ModelSelector \<Rightarrow> 'm \<Rightarrow> error + real" where
  "anti_dic_score H S hmm_model =
     (case anti_dic_loop H S hmm_model (hwords S) (0, 0) of
        Inl e \<Rightarrow> Inl e
      | Inr (total_score, word_count) \<Rightarrow>
          (if word_count = 0 then Inl ZeroDivisionError
           else Inr (total_score / real word_count)))"

definition dic_model ::
  "'m GaussianHMM \<Rightarrow> ModelSelector \<Rightarrow> int \<Rightarrow> event list \<times> (error + real \<times> 'm)" where
  "dic_model H S num_states =
     (case base_model H S num_states of (out, hmm_model) \<Rightarrow>
        (case hmm_model of
           None \<Rightarrow> (out, Inl AttributeError)
         | Some m \<Rightarrow>
             (case hmm_score H m (X S, lengths S) of
                Inl e \<Rightarrow> (out, Inl e)
              | Inr p_evidence \<Rightarrow>
                  (case anti_dic_score H S m of
                     Inl e \<Rightarrow> (out, Inl e)
                   | Inr p_anti_evidence \<Rightarrow>
                       (let dic_score = p_evidence - p_anti_evidence
                        in (out, Inr (dic_score, m)))))))"

text \<open>The loop of \<open>SelectorDIC.select\<close>, with the same handler as \<open>SelectorBIC\<close>.\<close>

definition dic_iteration ::
  "'m GaussianHMM \<Rightarrow> ModelSelector \<Rightarrow> int \<Rightarrow> 'm best \<Rightarrow> event list \<times> (error + 'm best)" where
  "dic_iteration H S n st =
     (case dic_model H S n of
        (out, Inr (score, model)) \<Rightarrow>
          (out, Inr (if gt score (best_score st)
                     then st\<lparr>best_score := Fin score, best_model := Some model,
                             best_num_states := n\<rparr>
                     else st))
      | (out, Inl e) \<Rightarrow>
          (if verbose S then (out, Inl NameError) else (out, Inr st)))"

fun dic_loop ::
  "'m GaussianHMM \<Rightarrow> ModelSelector \<Rightarrow> int list \<Rightarrow> 'm best \<Rightarrow> event list \<times> (error + 'm best)" where
  "dic_loop H S [] st = ([], Inr st)"
| "dic_loop H S (n # ns) st =
     (case dic_iteration H S n st of
        (out, Inl e) \<Rightarrow> (out, Inl e)
      | (out, Inr st') \<Rightarrow> (case dic_loop H S ns st' of (out', r) \<Rightarrow> (out @ out', r)))"

definition SelectorDIC_select ::
  "'m GaussianHMM \<Rightarrow> ModelSelector \<Rightarrow> event list \<times> (error + 'm option)" where
  "SelectorDIC_select H S =
     (case base_model H S (n_constant S) of (out0, m0) \<Rightarrow>
        (case dic_loop H S (range_py (min_n_components S) (max_n_components S))
                \<lparr>best_num_states = 1, best_score = NegInf, best_model = m0\<rparr> of
           (out, Inl e) \<Rightarrow> (out0 @ out, Inr None)
         | (out, Inr st) \<Rightarrow>
             (out0 @ out @
                (if verbose S then [ModelCreated (this_word S) (best_num_states st)] else []),
              Inr (best_model st))))"

section \<open>SelectorCV\<close>

text \<open>
  scikit-learn's \<open>KFold(n_splits=k).split\<close> on \<open>n\<close> samples, without shuffling: the test
  folds are consecutive blocks, the first \<open>n mod k\<close> of them one longer, and the training
  indices are the others in order.
\<close>

definition fold_sizes :: "nat \<Rightarrow> nat \<Rightarrow> nat list" where
  "fold_sizes k n = map (\<lambda>i. n div k + (if i < n mod k then 1 else 0)) [0..<k]"

fun KFold_from :: "nat \<Rightarrow> nat \<Rightarrow> nat list \<Rightarrow> (nat list \<times> nat list) list" where
  "KFold_from n current [] = []"
| "KFold_from n current (fold_size # rest) =
     ([0..<current] @ [current + fold_size..<n], [current..<current + fold_size])
       # KFold_from n (current + fold_size) rest"

definition KFold_split :: "nat \<Rightarrow> nat \<Rightarrow> (nat list \<times> nat list) list" where
  "KFold_split k n = KFold_from n 0 (fold_sizes k n)"

text \<open>
  Modelled from the spec: \<open>combine_sequences\<close> of \<open>asl_utils\<close>, which is not among the
  sources. It derives, from a list of indices into the sequence list, the single
  concatenated observation array and the list of the component lengths; an index out of
  range raises.
\<close>

definition combine_sequences :: "nat list \<Rightarrow> sequence list \<Rightarrow> error + Xlengths" where
  "combine_sequences split_index_list seqs =
     (if list_all (\<lambda>idx. idx < length seqs) split_index_list
      then Inr (concat (map (\<lambda>idx. seqs ! idx) split_index_list),
                map (\<lambda>idx. length (seqs ! idx)) split_index_list)
      else Inl IndexError)"

text \<open>
  The loop over the folds in \<open>cross_validation_model\<close>. Its locals are \<open>total_score\<close>,
  \<open>folds\<close> and \<open>training_model\<close> (unbound before the first fold).
\<close>

fun cv_folds ::
  "'m GaussianHMM \<Rightarrow> ModelSelector \<Rightarrow> int \<Rightarrow> (nat list \<times> nat list) list \<Rightarrow>
   real \<times> nat \<times> 'm option \<Rightarrow> error + real \<times> nat \<times> 'm option" where
  "cv_folds H S num_states [] acc = Inr acc"
| "cv_folds H S num_states ((cv_train_idx, cv_test_idx) # rest)
       (total_score, folds, training_model) =
     (case combine_sequences cv_train_idx (sequences S) of
        Inl e \<Rightarrow> Inl e
      | Inr train \<Rightarrow>
          (case combine_sequences cv_test_idx (sequences S) of
             Inl e \<Rightarrow> Inl e
           | Inr test \<Rightarrow>
               (case hmm_fit H num_states (random_state S) train of
                  Inl e \<Rightarrow> Inl e
                | Inr m \<Rightarrow>
                    (case hmm_score H m test of
                       Inl e \<Rightarrow> Inl e
                     | Inr score \<Rightarrow>
                         cv_folds H S num_states rest
                           (total_score + score, folds + 1, Some m)))))"

definition cross_validation_model ::
  "'m GaussianHMM \<Rightarrow> ModelSelector \<Rightarrow> int \<Rightarrow> nat \<Rightarrow>
   event list \<times> (error + real \<times> 'm option)" where
  "cross_validation_model H S num_states n_splits =
     (if length (sequences S) > n_splits then
        (case cv_folds H S num_states (KFold_split n_splits (length (sequences S)))
                (0, 0, None) of
           Inl e \<Rightarrow> ([], Inl e)
         | Inr (total_score, folds, training_model) \<Rightarrow>
             (if folds = 0 then ([], Inl ZeroDivisionError)
              else ([], Inr (total_score / real folds, training_model))))
      else
        (case base_model H S (n_constant S) of (out, m) \<Rightarrow> (out, Inr (0, m))))"

text \<open>
  The loop of \<open>SelectorCV.select\<close>. It has no handler of its own: an exception of
  \<open>cross_validation_model\<close> leaves the loop. The source assigns the winning \<open>n\<close> to a local
  named \<open>best_num_state\<close> that nothing reads; \<open>best_num_states\<close> keeps its initial 0.
\<close>

fun cv_loop ::
  "'m GaussianHMM \<Rightarrow> ModelSelector \<Rightarrow> int list \<Rightarrow> 'm best \<Rightarrow> event list \<times> (error + 'm best)" where
  "cv_loop H S [] st = ([], Inr st)"
| "cv_loop H S (n # ns) st =
     (case cross_validation_model H S n 3 of
        (out, Inl e) \<Rightarrow> (out, Inl e)
      | (out, Inr (score, model)) \<Rightarrow>
          (case cv_loop H S ns
                  (if ge score (best_score st)
                   then st\<lparr>best_score := Fin score, best_model := model\<rparr>
                   else st) of
             (out', r) \<Rightarrow> (out @ out', r)))"

text \<open>\<open>SelectorCV.select\<close>: \<open>except Exception as e\<close> prints the exception and returns \<open>None\<close>.\<close>

definition SelectorCV_select ::
  "'m GaussianHMM \<Rightarrow> ModelSelector \<Rightarrow> event list \<times> (error + 'm option)" where
  "SelectorCV_select H S =
     (case cv_loop H S (range_py (min_n_components S) (max_n_components S))
             \<lparr>best_num_states = 0, best_score = NegInf, best_model = None\<rparr> of
        (out, Inr st) \<Rightarrow> (out, Inr (best_model st))
      | (out, Inl e) \<Rightarrow> (out @ [Printed e], Inr None))"

section \<open>The recogniser\<close>

text \<open>
  Modelled from the spec: \<open>SinglesData.get_all_Xlengths\<close> of \<open>asl_data\<close>, which is not among
  the sources. The test set exposes an ordered mapping from sequence id to the
  \<open>(X, lengths)\<close> pair of that sequence.
\<close>

type_synonym SinglesData = "(nat \<times> Xlengths) list"

definition get_all_Xlengths :: "SinglesData \<Rightarrow> (nat \<times> Xlengths) list" where
  "get_all_Xlengths test_set = test_set"

text \<open>
  The inner loop over \<open>models.items()\<close> for one test sequence. Its locals are the score map
  \<open>words_prob\<close>, \<open>guess_word\<close> and \<open>best_score\<close>. A \<open>None\<close> model is falsy and skipped; an
  exception of \<open>score\<close> is caught and the loop continues.
\<close>

fun recognize_words ::
  "'m GaussianHMM \<Rightarrow> Xlengths \<Rightarrow> (string \<times> 'm option) list \<Rightarrow>
   (string \<rightharpoonup> real) \<times> string option \<times> bound \<Rightarrow> (string \<rightharpoonup> real) \<times> string option \<times> bound" where
  "recognize_words H t [] acc = acc"
| "recognize_words H t ((word, model) # rest) (words_prob, guess_word, best) =
     (case model of
        None \<Rightarrow> recognize_words H t rest (words_prob, guess_word, best)
      | Some m \<Rightarrow>
          (case hmm_score H m t of
             Inl err \<Rightarrow> recognize_words H t rest (words_prob, guess_word, best)
           | Inr score \<Rightarrow>
               (if gt score best
                then recognize_words H t rest (words_prob(word \<mapsto> score), Some word, Fin score)
                else recognize_words H t rest (words_prob(word \<mapsto> score), guess_word, best))))"

fun recognize_loop ::
  "'m GaussianHMM \<Rightarrow> (string \<times> 'm option) list \<Rightarrow> Xlengths list \<Rightarrow>
   (string \<rightharpoonup> real) list \<times> string option list \<Rightarrow> (string \<rightharpoonup> real) list \<times> string option list" where
  "recognize_loop H models [] acc = acc"
| "recognize_loop H models (t # ts) (probabilities, guesses) =
     (case recognize_words H t models (Map.empty, None, NegInf) of
        (words_prob, guess_word, best) \<Rightarrow>
          recognize_loop H models ts (probabilities @ [words_prob], guesses @ [guess_word]))"

definition recognize ::
  "'m GaussianHMM \<Rightarrow> (string \<times> 'm option) list \<Rightarrow> SinglesData \<Rightarrow>
   (string \<rightharpoonup> real) list \<times> string option list" where
  "recognize H models test_set =
     (let test_sequences = map snd (get_all_Xlengths test_set)
      in recognize_loop H models test_sequences ([], []))"

section \<open>Test doubles\<close>

text \<open>
  A deterministic fake of the sequence model: a model is its state count, fitting fails
  for the state counts in \<open>bad_fit\<close>, scoring fails for the models in \<open>bad_score\<close>, and
  the score of any other model is \<open>sc\<close> of its state count and the data scored.
\<close>

definition fake_hmm ::
  "int list \<Rightarrow> int list \<Rightarrow> (int \<Rightarrow> Xlengths \<Rightarrow> real) \<Rightarrow> int GaussianHMM" where
  "fake_hmm bad_fit bad_score sc =
     \<lparr>hmm_fit = (\<lambda>n seed d. if n \<in> set bad_fit then Inl FitFailure else Inr n),
      hmm_score = (\<lambda>m d. if m \<in> set bad_score then Inl ScoreFailure else Inr (sc m d))\<rparr>"

text \<open>
  A selector for the word \<open>''A''\<close> with the training sequences \<open>seqs\<close>, one other word
  \<open>''B''\<close>, constant state count 3 and seed 14.
\<close>

definition demo_selector :: "sequence list \<Rightarrow> bool \<Rightarrow> int \<Rightarrow> int \<Rightarrow> ModelSelector" where
  "demo_selector seqs vb mn mx =
     \<lparr>words = [(''A'', seqs), (''B'', [[[1]]])],
      hwords = [(''A'', (concat seqs, map length seqs)), (''B'', ([[1]], [1]))],
      sequences = seqs, X = concat seqs, lengths = map length seqs, this_word = ''A'',
      n_constant = 3, min_n_components = mn, max_n_components = mx,
      random_state = 14, verbose = vb\<rparr>"

section \<open>The search loops of SelectorBIC and SelectorDIC as one function\<close>

text \<open>
  Both loops have the same shape; \<open>search\<close> is that shape on the values returned, without
  the text printed. \<open>crit\<close> is \<open>bic_model\<close> or \<open>dic_model\<close>, \<open>vb\<close> the \<open>verbose\<close> flag.
\<close>

fun search ::
  "(int \<Rightarrow> error + real \<times> 'm) \<Rightarrow> bool \<Rightarrow> int list \<Rightarrow> 'm best \<Rightarrow> error + 'm best" where
  "search crit vb [] st = Inr st"
| "search crit vb (n # ns) st =
     (case crit n of
        Inr (score, model) \<Rightarrow>
          search crit vb ns
            (if gt score (best_score st)
             then \<lparr>best_num_states = n, best_score = Fin score, best_model = Some model\<rparr>
             else st)
      | Inl e \<Rightarrow> (if vb then Inl NameError else search crit vb ns st))"

text \<open>The order of the running best scores: the sentinel is below every finite score.\<close>

fun ble :: "bound \<Rightarrow> bound \<Rightarrow> bool" where
  "ble NegInf b = True"
| "ble (Fin a) NegInf = False"
| "ble (Fin a) (Fin b) = (a \<le> b)"

section \<open>Cross-validation as the specification words it\<close>

text \<open>
  One fold: combine the training sequences, fit a fresh model with \<open>n\<close> states on them,
  and score it on the combined held-out sequences.
\<close>

definition fold_eval ::
  "'m GaussianHMM \<Rightarrow> ModelSelector \<Rightarrow> int \<Rightarrow> nat list \<times> nat list \<Rightarrow> error + real \<times> 'm" where
  "fold_eval H S n f =
     (case combine_sequences (fst f) (sequences S) of
        Inl e \<Rightarrow> Inl e
      | Inr train \<Rightarrow>
          (case combine_sequences (snd f) (sequences S) of
             Inl e \<Rightarrow> Inl e
           | Inr test \<Rightarrow>
               (case hmm_fit H n (random_state S) train of
                  Inl e \<Rightarrow> Inl e
                | Inr m \<Rightarrow>
                    (case hmm_score H m test of
                       Inl e \<Rightarrow> Inl e
                     | Inr s \<Rightarrow> Inr (s, m)))))"

text \<open>The results of a run of steps: the first exception, or every value.\<close>

fun all_results :: "(error + 'a) list \<Rightarrow> error + 'a list" where
  "all_results [] = Inr []"
| "all_results (Inl e # rs) = Inl e"
| "all_results (Inr v # rs) =
     (case all_results rs of Inl e \<Rightarrow> Inl e | Inr vs \<Rightarrow> Inr (v # vs))"

text \<open>
  The average of the test scores over the folds executed, with the model fitted on the
  last fold as the representative model.
\<close>

definition cv_average ::
  "'m GaussianHMM \<Rightarrow> ModelSelector \<Rightarrow> int \<Rightarrow> (nat list \<times> nat list) list \<Rightarrow>
   error + real \<times> 'm option" where
  "cv_average H S n folds =
     (case all_results (map (fold_eval H S n) folds) of
        Inl e \<Rightarrow> Inl e
      | Inr rs \<Rightarrow> Inr (sum_list (map fst rs) / real (length rs), Some (snd (last rs))))"

text \<open>
  The loop of \<open>SelectorCV.select\<close> on the values returned, without the text printed;
  \<open>crit\<close> is \<open>cross_validation_model\<close>.
\<close>

fun cv_search ::
  "(int \<Rightarrow> error + real \<times> 'm option) \<Rightarrow> int list \<Rightarrow> 'm best \<Rightarrow> error + 'm best" where
  "cv_search crit [] st = Inr st"
| "cv_search crit (n # ns) st =
     (case crit n of
        Inl e \<Rightarrow> Inl e
      | Inr (score, model) \<Rightarrow>
          cv_search crit ns
            (if ge score (best_score st)
             then st\<lparr>best_score := Fin score, best_model := model\<rparr>
             else st))"

section \<open>Recognition as the specification words it\<close>

text \<open>
  The successful scores for one test sequence, in the order of \<open>models.items()\<close>: a word
  whose model is \<open>None\<close> or whose model fails to score the sequence is absent.
\<close>

fun scored ::
  "'m GaussianHMM \<Rightarrow> Xlengths \<Rightarrow> (string \<times> 'm option) list \<Rightarrow> (string \<times> real) list" where
  "scored H t [] = []"
| "scored H t ((word, model) # rest) =
     (case model of
        None \<Rightarrow> scored H t rest
      | Some m \<Rightarrow>
          (case hmm_score H m t of
             Inl e \<Rightarrow> scored H t rest
           | Inr s \<Rightarrow> (word, s) # scored H t rest))"

text \<open>The inner loop of \<open>recognize\<close> on the successful scores only.\<close>

fun track ::
  "(string \<times> real) list \<Rightarrow> (string \<rightharpoonup> real) \<times> string option \<times> bound \<Rightarrow>
   (string \<rightharpoonup> real) \<times> string option \<times> bound" where
  "track [] acc = acc"
| "track ((word, score) # rest) (words_prob, guess_word, best) =
     (if gt score best
      then track rest (words_prob(word \<mapsto> score), Some word, Fin score)
      else track rest (words_prob(word \<mapsto> score), guess_word, best))"

text \<open>What \<open>recognize\<close> computes for one test sequence: its score map and its guess.\<close>

definition recognize_one ::
  "'m GaussianHMM \<Rightarrow> (string \<times> 'm option) list \<Rightarrow> Xlengths \<Rightarrow> (string \<rightharpoonup> real) \<times> string option" where
  "recognize_one H models t =
     (case recognize_words H t models (Map.empty, None, NegInf) of
        (words_prob, guess_word, best) \<Rightarrow> (words_prob, guess_word))"

section \<open>The discriminative score as the specification words it\<close>

text \<open>The \<open>(X, lengths)\<close> data of every word other than \<open>this_word\<close>.\<close>

definition other_words :: "ModelSelector \<Rightarrow> Xlengths list" where
  "other_words S = map snd (filter (\<lambda>(word, features). this_word S \<noteq> word) (hwords S))"

text \<open>
  The DIC score of a model: its score on the own word's data minus the arithmetic mean
  of its scores on the data of every other word. With no other word there is no mean.
\<close>

definition dic_score :: "'m GaussianHMM \<Rightarrow> ModelSelector \<Rightarrow> 'm \<Rightarrow> error + real" where
  "dic_score H S m =
     (case hmm_score H m (X S, lengths S) of
        Inl e \<Rightarrow> Inl e
      | Inr evidence \<Rightarrow>
          (case all_results (map (hmm_score H m) (other_words S)) of
             Inl e \<Rightarrow> Inl e
           | Inr scores \<Rightarrow>
               (if scores = [] then Inl ZeroDivisionError
                else Inr (evidence - sum_list scores / real (length scores)))))"

section \<open>Properties of the search loops\<close>

lemma best_update_all:
  "st\<lparr>best_score := a, best_num_states := b, best_model := c\<rparr> =
     \<lparr>best_num_states = b, best_score = a, best_model = c\<rparr>"
  "st\<lparr>best_score := a, best_model := c, best_num_states := b\<rparr> =
     \<lparr>best_num_states = b, best_score = a, best_model = c\<rparr>"
  for st :: "'m best"
  by (cases st; simp)+

lemma bic_loop_search:
  "snd (bic_loop H S ns st) = search (\<lambda>n. snd (bic_model H S n)) (verbose S) ns st"
  by (induction ns arbitrary: st)
     (simp_all add: bic_iteration_def case_prod_beta best_update_all split: sum.splits)

lemma dic_loop_search:
  "snd (dic_loop H S ns st) = search (\<lambda>n. snd (dic_model H S n)) (verbose S) ns st"
  by (induction ns arbitrary: st)
     (simp_all add: dic_iteration_def case_prod_beta best_update_all split: sum.splits)

lemma search_quiet_total: "\<exists>st'. search crit False ns st = Inr st'"
  by (induction ns arbitrary: st) (auto split: sum.splits prod.splits)

lemma search_quiet_skip:
  "crit n = Inl e \<Longrightarrow> search crit False (n # ns) st = search crit False ns st"
  by simp

lemma search_verbose_abort:
  "search crit True ns st = Inl e \<Longrightarrow> e = NameError \<and> (\<exists>n\<in>set ns. isl (crit n))"
  by (induction ns arbitrary: st) (auto split: sum.splits prod.splits if_splits)

lemma search_verbose_abort_iff:
  "(\<exists>e. search crit True ns st = Inl e) \<longleftrightarrow> (\<exists>n\<in>set ns. isl (crit n))"
  by (induction ns arbitrary: st) (auto split: sum.splits prod.splits if_splits simp: isl_def)

lemma ble_refl: "ble b b" by (cases b) auto
lemma ble_trans: "ble a b \<Longrightarrow> ble b c \<Longrightarrow> ble a c"
  by (cases a; cases b; cases c) auto

lemma search_mono: "search crit vb ns st = Inr st' \<Longrightarrow> ble (best_score st) (best_score st')"
proof (induction ns arbitrary: st)
  case Nil then show ?case by (simp add: ble_refl)
next
  case (Cons n ns)
  show ?case
  proof (cases "crit n")
    case (Inl e)
    with Cons show ?thesis by (auto split: if_splits)
  next
    case (Inr p)
    obtain s m where p: "p = (s, m)" by (cases p)
    let ?st = "(if gt s (best_score st)
             then \<lparr>best_num_states = n, best_score = Fin s, best_model = Some m\<rparr>
             else st)"
    from Cons.prems Inr p have "search crit vb ns ?st = Inr st'" by simp
    then have "ble (best_score ?st) (best_score st')" by (rule Cons.IH)
    moreover have "ble (best_score st) (best_score ?st)"
      by (cases "best_score st") (auto)
    ultimately show ?thesis by (rule ble_trans[rotated])
  qed
qed

lemma search_upper:
  "search crit vb ns st = Inr st' \<Longrightarrow> n \<in> set ns \<Longrightarrow> crit n = Inr (s, m) \<Longrightarrow>
   ble (Fin s) (best_score st')"
proof (induction ns arbitrary: st)
  case Nil then show ?case by simp
next
  case (Cons k ns)
  show ?case
  proof (cases "crit k")
    case (Inl e)
    with Cons show ?thesis by (auto split: if_splits)
  next
    case (Inr p)
    obtain s' m' where p: "p = (s', m')" by (cases p)
    let ?st = "(if gt s' (best_score st)
             then \<lparr>best_num_states = k, best_score = Fin s', best_model = Some m'\<rparr>
             else st)"
    from Cons.prems Inr p have run: "search crit vb ns ?st = Inr st'" by simp
    show ?thesis
    proof (cases "n = k")
      case True
      with Cons.prems Inr p have "s' = s" by simp
      then have "ble (Fin s) (best_score ?st)" by (cases "best_score st") auto
      from this search_mono[OF run] show ?thesis by (rule ble_trans)
    next
      case False
      with Cons.prems have "n \<in> set ns" by simp
      from Cons.IH[OF run this Cons.prems(3)] show ?thesis .
    qed
  qed
qed

lemma search_origin:
  "search crit vb ns st = Inr st' \<Longrightarrow>
   st' = st \<or> (\<exists>n\<in>set ns. \<exists>s m. crit n = Inr (s, m) \<and>
      st' = \<lparr>best_num_states = n, best_score = Fin s, best_model = Some m\<rparr>)"
proof (induction ns arbitrary: st)
  case Nil then show ?case by simp
next
  case (Cons k ns)
  show ?case
  proof (cases "crit k")
    case (Inl e)
    with Cons show ?thesis by (auto split: if_splits)
  next
    case (Inr p)
    obtain s' m' where p: "p = (s', m')" by (cases p)
    let ?st = "(if gt s' (best_score st)
             then \<lparr>best_num_states = k, best_score = Fin s', best_model = Some m'\<rparr>
             else st)"
    from Cons.prems Inr p have run: "search crit vb ns ?st = Inr st'" by simp
    from Cons.IH[OF run] Inr p show ?thesis
      by (auto split: if_splits)
  qed
qed

section \<open>Results of select\<close>

text \<open>The demonstration selector is what the constructor builds.\<close>

lemma demo_selector_init:
  "ModelSelector_init [(''A'', seqs), (''B'', [[[1]]])]
     [(''A'', (concat seqs, map length seqs)), (''B'', ([[1]], [1]))] ''A'' 3 mn mx 14 vb =
   Inr (demo_selector seqs vb mn mx)"
  by (simp add: ModelSelector_init_def demo_selector_def)

lemma range_py_empty: "b \<le> a \<Longrightarrow> range_py a b = []"
  by (simp add: range_py_def)

text \<open>
  Claim C10. When the search range is empty (\<open>max_n_components \<le> min_n_components\<close>),
  \<open>SelectorBIC.select\<close> and \<open>SelectorDIC.select\<close> return what \<open>base_model(n_constant)\<close>
  built, and \<open>SelectorCV.select\<close> returns \<open>None\<close>.
\<close>

theorem empty_range_results:
  "max_n_components S \<le> min_n_components S \<Longrightarrow>
     snd (SelectorBIC_select H S) = Inr (snd (base_model H S (n_constant S))) \<and>
     snd (SelectorDIC_select H S) = Inr (snd (base_model H S (n_constant S))) \<and>
     snd (SelectorCV_select H S) = Inr None"
  by (simp add: SelectorBIC_select_def SelectorDIC_select_def SelectorCV_select_def
      range_py_empty case_prod_beta)

theorem empty_range_results_witness:
  "max_n_components (demo_selector [[[0]]] True 5 2)
     \<le> min_n_components (demo_selector [[[0]]] True 5 2) \<and>
   snd (SelectorBIC_select (fake_hmm [] [] (\<lambda>m d. 0)) (demo_selector [[[0]]] True 5 2)) = Inr (Some 3) \<and>
   snd (SelectorDIC_select (fake_hmm [] [] (\<lambda>m d. 0)) (demo_selector [[[0]]] True 5 2)) = Inr (Some 3) \<and>
   snd (SelectorCV_select (fake_hmm [] [] (\<lambda>m d. 0)) (demo_selector [[[0]]] True 5 2)) = Inr None"
  using empty_range_results [of "demo_selector [[[0]]] True 5 2" "fake_hmm [] [] (\<lambda>m d. 0)"]
  by (simp add: demo_selector_def fake_hmm_def base_model_def)

lemma SelectorConstant_returns: "\<exists>out r. SelectorConstant_select H S = (out, Inr r)"
  by (simp add: SelectorConstant_select_def case_prod_beta Let_def)

lemma SelectorBIC_returns: "\<exists>out r. SelectorBIC_select H S = (out, Inr r)"
  by (simp add: SelectorBIC_select_def case_prod_beta split: sum.splits)

lemma SelectorDIC_returns: "\<exists>out r. SelectorDIC_select H S = (out, Inr r)"
  by (simp add: SelectorDIC_select_def case_prod_beta split: sum.splits)

lemma SelectorCV_returns: "\<exists>out r. SelectorCV_select H S = (out, Inr r)"
  by (simp add: SelectorCV_select_def case_prod_beta split: sum.splits)

text \<open>
  Claim C9. For each of the four strategies, \<open>select\<close> never raises: whatever the
  collaborator does and whatever the selector holds, the call returns, and what it
  returns is a model or \<open>None\<close>.
\<close>

theorem select_never_raises:
  "(\<exists>out r. SelectorConstant_select H S = (out, Inr r)) \<and>
   (\<exists>out r. SelectorBIC_select H S = (out, Inr r)) \<and>
   (\<exists>out r. SelectorDIC_select H S = (out, Inr r)) \<and>
   (\<exists>out r. SelectorCV_select H S = (out, Inr r))"
  using SelectorConstant_returns SelectorBIC_returns SelectorDIC_returns SelectorCV_returns
  by blast

section \<open>Properties of SelectorCV.cross_validation_model\<close>

lemma all_results_length: "all_results rs = Inr vs \<Longrightarrow> length vs = length rs"
  by (induction rs arbitrary: vs rule: all_results.induct) (auto split: sum.splits)

lemma cv_folds_step:
  "cv_folds H S n (f # fs) (t, k, tm) =
     (case fold_eval H S n f of
        Inl e \<Rightarrow> Inl e
      | Inr (s, m) \<Rightarrow> cv_folds H S n fs (t + s, k + 1, Some m))"
  by (cases f) (simp add: fold_eval_def split: sum.splits)

lemma cv_folds_all_results:
  "cv_folds H S n fs (t, k, tm) =
     (case all_results (map (fold_eval H S n) fs) of
        Inl e \<Rightarrow> Inl e
      | Inr rs \<Rightarrow> Inr (t + sum_list (map fst rs), k + length rs,
                         if rs = [] then tm else Some (snd (last rs))))"
proof (induction fs arbitrary: t k tm)
  case Nil
  show ?case by simp
next
  case (Cons f fs)
  show ?case
  proof (cases "fold_eval H S n f")
    case (Inl e)
    then show ?thesis by (simp only: cv_folds_step) simp
  next
    case (Inr r)
    obtain s m where r: "r = (s, m)" by (cases r)
    have step: "cv_folds H S n (f # fs) (t, k, tm) = cv_folds H S n fs (t + s, k + 1, Some m)"
      using Inr r by (simp only: cv_folds_step) simp
    show ?thesis
      unfolding step Cons.IH using Inr r
      by (simp split: sum.splits add: add.assoc)
  qed
qed

lemma length_KFold_from: "length (KFold_from n c szs) = length szs"
  by (induction szs arbitrary: c) auto

lemma length_KFold_split: "length (KFold_split k n) = k"
  by (simp add: KFold_split_def length_KFold_from fold_sizes_def)

lemma cross_validation_model_many:
  assumes big: "length (sequences S) > 3"
  shows "cross_validation_model H S n 3 =
           ([], cv_average H S n (KFold_split 3 (length (sequences S))))"
proof (cases "all_results (map (fold_eval H S n) (KFold_split 3 (length (sequences S))))")
  case (Inl e)
  with big show ?thesis
    by (simp add: cross_validation_model_def cv_average_def cv_folds_all_results)
next
  case (Inr rs)
  from all_results_length [OF Inr] have "length rs = 3" by (simp add: length_KFold_split)
  moreover from this have "rs \<noteq> []" by auto
  ultimately show ?thesis using big Inr
    by (simp add: cross_validation_model_def cv_average_def cv_folds_all_results)
qed

lemma cross_validation_model_few:
  "length (sequences S) \<le> 3 \<Longrightarrow>
   snd (cross_validation_model H S n 3) = Inr (0, snd (base_model H S (n_constant S)))"
  by (simp add: cross_validation_model_def case_prod_beta)

text \<open>
  Claim C5. With more than 3 training sequences \<open>cross_validation_model\<close> runs exactly
  3 folds over the sequence list and returns the average of the per-fold test scores
  together with the model fitted on the last fold (or the first exception of a fold);
  with 3 or fewer sequences it returns the score 0.0 paired with what
  \<open>base_model(n_constant)\<close> built.
\<close>

theorem cross_validation_model_spec:
  "(length (sequences S) > 3 \<longrightarrow>
      length (KFold_split 3 (length (sequences S))) = 3 \<and>
      cross_validation_model H S n 3 =
        ([], cv_average H S n (KFold_split 3 (length (sequences S))))) \<and>
   (length (sequences S) \<le> 3 \<longrightarrow>
      snd (cross_validation_model H S n 3) = Inr (0, snd (base_model H S (n_constant S))))"
  using cross_validation_model_many [of S H n] cross_validation_model_few [of S H n]
  by (simp add: length_KFold_split)

lemma KFold_split_3_4: "KFold_split 3 4 = [([2,3],[0,1]), ([0,1,3],[2]), ([0,1,2],[3])]"
  by (simp add: KFold_split_def fold_sizes_def upt_rec)

theorem cross_validation_model_spec_witness:
  "length (sequences (demo_selector [[[0]], [[1]], [[2]], [[3]]] False 2 4)) > 3 \<and>
   cross_validation_model (fake_hmm [] [] (\<lambda>m d. real (length (fst d))))
     (demo_selector [[[0]], [[1]], [[2]], [[3]]] False 2 4) 2 3 = ([], Inr (4 / 3, Some 2)) \<and>
   length (sequences (demo_selector [[[0]]] False 2 4)) \<le> 3 \<and>
   snd (cross_validation_model (fake_hmm [] [] (\<lambda>m d. real (length (fst d))))
     (demo_selector [[[0]]] False 2 4) 2 3) = Inr (0, Some 3)"
proof -
  let ?H = "fake_hmm [] [] (\<lambda>m d. real (length (fst d)))"
  let ?S4 = "demo_selector [[[0]], [[1]], [[2]], [[3]]] False 2 4"
  let ?S1 = "demo_selector [[[0]]] False 2 4"
  have len: "length (sequences ?S4) = 4"
    by (simp add: demo_selector_def)
  have avg: "cv_average ?H ?S4 2 (KFold_split 3 4) = Inr (4 / 3, Some 2)"
    by (simp add: KFold_split_3_4 cv_average_def fold_eval_def combine_sequences_def
        demo_selector_def fake_hmm_def)
  have small: "length (sequences ?S1) \<le> 3"
    by (simp add: demo_selector_def)
  have base: "snd (base_model ?H ?S1 (n_constant ?S1)) = Some 3"
    by (simp add: base_model_def demo_selector_def fake_hmm_def)
  from cross_validation_model_spec [of ?S4 ?H 2] len avg
  have a: "cross_validation_model ?H ?S4 2 3 = ([], Inr (4 / 3, Some 2))"
    by simp
  from cross_validation_model_spec [of ?S1 ?H 2] small base
  have b: "snd (cross_validation_model ?H ?S1 2 3) = Inr (0, Some 3)"
    by simp
  from len small a b show ?thesis by simp
qed

section \<open>Properties of SelectorCV.select\<close>

lemma cv_loop_search:
  "snd (cv_loop H S ns st) = cv_search (\<lambda>n. snd (cross_validation_model H S n 3)) ns st"
  by (induction ns arbitrary: st) (simp_all add: case_prod_beta split: sum.splits)

lemma cv_search_append:
  "cv_search crit (xs @ ys) st =
     (case cv_search crit xs st of Inl e \<Rightarrow> Inl e | Inr st' \<Rightarrow> cv_search crit ys st')"
  by (induction xs arbitrary: st) (simp_all split: sum.splits prod.splits)

lemma cv_search_fails:
  "n \<in> set ns \<Longrightarrow> crit n = Inl e \<Longrightarrow> \<exists>e'. cv_search crit ns st = Inl e'"
  by (induction ns arbitrary: st) (auto split: sum.splits prod.splits)

lemma cv_search_first_failure:
  "\<forall>k\<in>set xs. \<not> isl (crit k) \<Longrightarrow> crit n = Inl e \<Longrightarrow>
   cv_search crit (xs @ n # ys) st = Inl e"
  by (induction xs arbitrary: st) (auto split: sum.splits prod.splits)

lemma cv_search_bounded:
  "\<forall>k\<in>set ns. \<exists>s' m'. crit k = Inr (s', m') \<and> s' \<le> s \<Longrightarrow> ble (best_score st) (Fin s) \<Longrightarrow>
   \<exists>st'. cv_search crit ns st = Inr st' \<and> ble (best_score st') (Fin s)"
proof (induction ns arbitrary: st)
  case Nil
  then show ?case by simp
next
  case (Cons k ns)
  from Cons.prems(1) obtain s' m' where k: "crit k = Inr (s', m')" "s' \<le> s" by auto
  let ?st = "if ge s' (best_score st) then st\<lparr>best_score := Fin s', best_model := m'\<rparr> else st"
  from k(2) Cons.prems(2) have "ble (best_score ?st) (Fin s)" by simp
  moreover from Cons.prems(1) have "\<forall>k\<in>set ns. \<exists>s' m'. crit k = Inr (s', m') \<and> s' \<le> s" by simp
  ultimately have "\<exists>st'. cv_search crit ns ?st = Inr st' \<and> ble (best_score st') (Fin s)"
    by (rule Cons.IH[rotated])
  with k(1) show ?case by simp
qed

lemma cv_search_keeps:
  "\<forall>k\<in>set ns. \<exists>s' m'. crit k = Inr (s', m') \<and> s' < s \<Longrightarrow> best_score st = Fin s \<Longrightarrow>
   cv_search crit ns st = Inr st"
  by (induction ns) auto

lemma ge_of_ble: "ble b (Fin s) \<Longrightarrow> ge s b"
  by (cases b) auto

lemma cv_search_winner:
  assumes before: "\<forall>k\<in>set xs. \<exists>s' m'. crit k = Inr (s', m') \<and> s' \<le> s"
    and at: "crit n = Inr (s, m)"
    and after: "\<forall>k\<in>set ys. \<exists>s' m'. crit k = Inr (s', m') \<and> s' < s"
    and init: "best_score st = NegInf"
  shows "\<exists>st'. cv_search crit (xs @ n # ys) st = Inr st' \<and> best_model st' = m \<and>
           best_score st' = Fin s"
proof -
  from init have "ble (best_score st) (Fin s)" by simp
  with before obtain st1 where st1: "cv_search crit xs st = Inr st1" "ble (best_score st1) (Fin s)"
    using cv_search_bounded by blast
  let ?st2 = "st1\<lparr>best_score := Fin s, best_model := m\<rparr>"
  have "cv_search crit ys ?st2 = Inr ?st2"
    using after by (rule cv_search_keeps) simp
  with st1 at have "cv_search crit (xs @ n # ys) st = Inr ?st2"
    by (simp add: cv_search_append ge_of_ble)
  then show ?thesis by simp
qed

lemma range_py_split:
  "a \<le> n \<Longrightarrow> n < b \<Longrightarrow> range_py a b = range_py a n @ n # range_py (n + 1) b"
  unfolding range_py_def using upto_split3 [of a n "b - 1"] by simp

lemma set_range_py: "set (range_py a b) = {k. a \<le> k \<and> k < b}"
  by (auto simp: range_py_def)

lemma SelectorCV_select_returned:
  "snd (cv_loop H S (range_py (min_n_components S) (max_n_components S))
          \<lparr>best_num_states = 0, best_score = NegInf, best_model = None\<rparr>) = Inr st \<Longrightarrow>
   snd (SelectorCV_select H S) = Inr (best_model st)"
  by (simp add: SelectorCV_select_def case_prod_beta)

lemma SelectorCV_select_raised:
  "snd (cv_loop H S (range_py (min_n_components S) (max_n_components S))
          \<lparr>best_num_states = 0, best_score = NegInf, best_model = None\<rparr>) = Inl e \<Longrightarrow>
   snd (SelectorCV_select H S) = Inr None \<and> fst (SelectorCV_select H S) \<noteq> [] \<and>
   last (fst (SelectorCV_select H S)) = Printed e"
  by (simp add: SelectorCV_select_def case_prod_beta)

lemma SelectorCV_select_winner:
  assumes n: "min_n_components S \<le> n" "n < max_n_components S"
    and at: "snd (cross_validation_model H S n 3) = Inr (s, m)"
    and before: "\<forall>k. min_n_components S \<le> k \<and> k < n \<longrightarrow>
           (\<exists>s' m'. snd (cross_validation_model H S k 3) = Inr (s', m') \<and> s' \<le> s)"
    and after: "\<forall>k. n < k \<and> k < max_n_components S \<longrightarrow>
           (\<exists>s' m'. snd (cross_validation_model H S k 3) = Inr (s', m') \<and> s' < s)"
  shows "snd (SelectorCV_select H S) = Inr m"
proof -
  let ?crit = "\<lambda>n. snd (cross_validation_model H S n 3)"
  let ?st = "\<lparr>best_num_states = 0, best_score = NegInf, best_model = None\<rparr> :: 'a best"
  have b: "\<forall>k\<in>set (range_py (min_n_components S) n). \<exists>s' m'. ?crit k = Inr (s', m') \<and> s' \<le> s"
    using before by (simp add: set_range_py)
  have a: "\<forall>k\<in>set (range_py (n + 1) (max_n_components S)). \<exists>s' m'. ?crit k = Inr (s', m') \<and> s' < s"
    using after by (simp add: set_range_py)
  from cv_search_winner [of "range_py (min_n_components S) n" ?crit s n m
      "range_py (n + 1) (max_n_components S)" ?st, OF b at a]
  obtain st' where "cv_search ?crit (range_py (min_n_components S) (max_n_components S)) ?st = Inr st'"
    "best_model st' = m"
    using range_py_split [OF n] by auto
  then show ?thesis
    using SelectorCV_select_returned [of H S st'] by (simp add: cv_loop_search)
qed

lemma SelectorCV_select_aborts:
  assumes n: "min_n_components S \<le> n" "n < max_n_components S"
    and at: "snd (cross_validation_model H S n 3) = Inl e"
  shows "snd (SelectorCV_select H S) = Inr None \<and>
         (\<exists>e'. fst (SelectorCV_select H S) \<noteq> [] \<and> last (fst (SelectorCV_select H S)) = Printed e')"
proof -
  let ?crit = "\<lambda>n. snd (cross_validation_model H S n 3)"
  let ?st = "\<lparr>best_num_states = 0, best_score = NegInf, best_model = None\<rparr> :: 'a best"
  from n have "n \<in> set (range_py (min_n_components S) (max_n_components S))"
    by (simp add: set_range_py)
  from cv_search_fails [of n _ ?crit e ?st, OF this at]
  obtain e' where "snd (cv_loop H S (range_py (min_n_components S) (max_n_components S)) ?st) = Inl e'"
    by (auto simp: cv_loop_search)
  from SelectorCV_select_raised [OF this] show ?thesis by blast
qed

text \<open>
  Claim C6. \<open>SelectorCV.select\<close> keeps the candidate whose average score is greater than
  or equal to the best so far, so the model returned is that of the last \<open>n\<close> of the
  range whose score is maximal (no earlier score above it, every later score strictly
  below it); and when a candidate raises, \<open>select\<close> prints the exception and returns
  \<open>None\<close>, whatever \<open>base_model(n_constant)\<close> would build.
\<close>

theorem SelectorCV_select_spec:
  "(min_n_components S \<le> n \<and> n < max_n_components S \<and>
    snd (cross_validation_model H S n 3) = Inr (s, m) \<and>
    (\<forall>k. min_n_components S \<le> k \<and> k < n \<longrightarrow>
       (\<exists>s' m'. snd (cross_validation_model H S k 3) = Inr (s', m') \<and> s' \<le> s)) \<and>
    (\<forall>k. n < k \<and> k < max_n_components S \<longrightarrow>
       (\<exists>s' m'. snd (cross_validation_model H S k 3) = Inr (s', m') \<and> s' < s))
    \<longrightarrow> snd (SelectorCV_select H S) = Inr m) \<and>
   (min_n_components S \<le> n \<and> n < max_n_components S \<and>
    snd (cross_validation_model H S n 3) = Inl e
    \<longrightarrow> snd (SelectorCV_select H S) = Inr None \<and>
        (\<exists>e'. fst (SelectorCV_select H S) \<noteq> [] \<and>
              last (fst (SelectorCV_select H S)) = Printed e'))"
  using SelectorCV_select_winner [of S n H s m] SelectorCV_select_aborts [of S n H e]
  by blast

lemma fake_cross_validation_model:
  "snd (cross_validation_model (fake_hmm bad [] (\<lambda>m d. 1))
          (demo_selector [[[0]], [[1]], [[2]], [[3]]] vb mn mx) k 3) =
     (if k \<in> set bad then Inl FitFailure else Inr (1, Some k))"
proof -
  let ?S = "demo_selector [[[0]], [[1]], [[2]], [[3]]] vb mn mx"
  have len: "length (sequences ?S) = 4" by (simp add: demo_selector_def)
  have "cv_average (fake_hmm bad [] (\<lambda>m d. 1)) ?S k (KFold_split 3 4) =
          (if k \<in> set bad then Inl FitFailure else Inr (1, Some k))"
    by (simp add: KFold_split_3_4 cv_average_def fold_eval_def combine_sequences_def
        demo_selector_def fake_hmm_def)
  with cross_validation_model_many [of ?S "fake_hmm bad [] (\<lambda>m d. 1)" k] len
  show ?thesis by simp
qed

theorem SelectorCV_select_spec_witness:
  "snd (cross_validation_model (fake_hmm [] [] (\<lambda>m d. 1))
          (demo_selector [[[0]], [[1]], [[2]], [[3]]] False 2 4) 2 3) = Inr (1, Some 2) \<and>
   snd (cross_validation_model (fake_hmm [] [] (\<lambda>m d. 1))
          (demo_selector [[[0]], [[1]], [[2]], [[3]]] False 2 4) 3 3) = Inr (1, Some 3) \<and>
   snd (SelectorCV_select (fake_hmm [] [] (\<lambda>m d. 1))
          (demo_selector [[[0]], [[1]], [[2]], [[3]]] False 2 4)) = Inr (Some 3) \<and>
   snd (cross_validation_model (fake_hmm [3] [] (\<lambda>m d. 1))
          (demo_selector [[[0]], [[1]], [[2]], [[3]]] False 2 4) 3 3) = Inl FitFailure \<and>
   snd (SelectorCV_select (fake_hmm [3] [] (\<lambda>m d. 1))
          (demo_selector [[[0]], [[1]], [[2]], [[3]]] False 2 4)) = Inr None"
proof -
  let ?S = "demo_selector [[[0]], [[1]], [[2]], [[3]]] False 2 4"
  have mn: "min_n_components ?S = 2" and mx: "max_n_components ?S = 4"
    by (simp_all add: demo_selector_def)
  have before: "\<forall>k. 2 \<le> k \<and> k < 3 \<longrightarrow>
      (\<exists>s' m'. snd (cross_validation_model (fake_hmm [] [] (\<lambda>m d. 1)) ?S k 3) = Inr (s', m') \<and> s' \<le> 1)"
    by (simp add: fake_cross_validation_model)
  have after: "\<forall>k. 3 < k \<and> k < 4 \<longrightarrow>
      (\<exists>s' m'. snd (cross_validation_model (fake_hmm [] [] (\<lambda>m d. 1)) ?S k 3) = Inr (s', m') \<and> s' < 1)"
    by auto
  from SelectorCV_select_spec [of ?S 3 "fake_hmm [] [] (\<lambda>m d. 1)" 1 "Some 3"] before after
  have a: "snd (SelectorCV_select (fake_hmm [] [] (\<lambda>m d. 1)) ?S) = Inr (Some 3)"
    by (simp add: mn mx fake_cross_validation_model)
  from SelectorCV_select_spec [of ?S 3 "fake_hmm [3] [] (\<lambda>m d. 1)" _ _ FitFailure]
  have b: "snd (SelectorCV_select (fake_hmm [3] [] (\<lambda>m d. 1)) ?S) = Inr None"
    by (simp add: mn mx fake_cross_validation_model)
  from a b show ?thesis by (simp add: fake_cross_validation_model)
qed

section \<open>Properties of the recogniser\<close>

lemma recognize_words_track:
  "recognize_words H t models acc = track (scored H t models) acc"
  by (induction H t models acc rule: recognize_words.induct)
     (simp_all split: option.splits sum.splits)





lemma track_none: "fst (snd (track xs (wp, None, NegInf))) = None \<longleftrightarrow> xs = []"
proof -
  have "g \<noteq> None \<Longrightarrow> fst (snd (track xs (wp, g, b))) \<noteq> None" for xs :: "(string \<times> real) list" and wp g b
    by (induction xs arbitrary: wp g b) auto
  then show ?thesis by (cases xs) auto
qed







lemma recognize_loop_map:
  "recognize_loop H models ts (ps, gs) =
     (ps @ map (\<lambda>t. fst (recognize_one H models t)) ts,
      gs @ map (\<lambda>t. snd (recognize_one H models t)) ts)"
  by (induction ts arbitrary: ps gs) (simp_all add: recognize_one_def split: prod.splits)

lemma recognize_map:
  "recognize H models test_set =
     (map (\<lambda>t. fst (recognize_one H models t)) (map snd test_set),
      map (\<lambda>t. snd (recognize_one H models t)) (map snd test_set))"
  by (simp add: recognize_def get_all_Xlengths_def recognize_loop_map)


lemma recognize_one_track:
  "recognize_one H models t =
     (fst (track (scored H t models) (Map.empty, None, NegInf)),
      fst (snd (track (scored H t models) (Map.empty, None, NegInf))))"
  by (simp add: recognize_one_def recognize_words_track split: prod.splits)


lemma recognize_one_none:
  "snd (recognize_one H models t) = None \<longleftrightarrow> scored H t models = []"
  by (simp add: recognize_one_track track_none)





text \<open>
  Claim C8. For every models mapping and every test set, of any size from 0 upward, the
  two lists returned have one entry per test sequence, the entry at position \<open>i\<close> is
  what the inner loop computes for the \<open>i\<close>-th sequence of the test set, and the guess
  is \<open>None\<close> when no model scored that sequence.
\<close>

theorem recognize_lengths_and_order:
  "length (fst (recognize H models test_set)) = length test_set \<and>
   length (snd (recognize H models test_set)) = length test_set \<and>
   (\<forall>i<length test_set.
      (fst (recognize H models test_set) ! i, snd (recognize H models test_set) ! i) =
        recognize_one H models (snd (get_all_Xlengths test_set ! i))) \<and>
   (\<forall>i<length test_set. scored H (snd (test_set ! i)) models = [] \<longrightarrow>
      snd (recognize H models test_set) ! i = None)"
  by (simp add: recognize_map get_all_Xlengths_def recognize_one_none)

theorem recognize_lengths_and_order_witness:
  "recognize (fake_hmm [] [2] (\<lambda>m d. 0)) [(''A'', None), (''B'', Some 2)]
     [(0, ([[0]], [1])), (1, ([[1]], [1]))] = ([Map.empty, Map.empty], [None, None]) \<and>
   recognize (fake_hmm [] [2] (\<lambda>m d. 0)) [(''A'', None), (''B'', Some 2)] [] = ([], [])"
  using recognize_lengths_and_order
    [of "fake_hmm [] [2] (\<lambda>m d. 0)" "[(''A'', None), (''B'', Some 2)]"
        "[(0, ([[0]], [1])), (1, ([[1]], [1]))]"]
    recognize_lengths_and_order
    [of "fake_hmm [] [2] (\<lambda>m d. 0)" "[(''A'', None), (''B'', Some 2)]" "[]"]
  by (simp add: recognize_def get_all_Xlengths_def fake_hmm_def)

section \<open>Properties of SelectorDIC\<close>

lemma anti_dic_loop_all_results:
  "anti_dic_loop H S m ws (t, c) =
     (case all_results (map (hmm_score H m)
              (map snd (filter (\<lambda>(word, features). this_word S \<noteq> word) ws))) of
        Inl e \<Rightarrow> Inl e
      | Inr scores \<Rightarrow> Inr (t + sum_list scores, c + length scores))"
proof (induction ws arbitrary: t c)
  case Nil
  show ?case by simp
next
  case (Cons p ws)
  obtain word features where p: "p = (word, features)" by (cases p)
  show ?case
  proof (cases "this_word S \<noteq> word")
    case False
    then show ?thesis by (simp add: p Cons.IH)
  next
    case True
    show ?thesis
    proof (cases "hmm_score H m features")
      case (Inl e)
      with True show ?thesis by (simp add: p)
    next
      case (Inr s)
      with True show ?thesis
        by (simp add: p Cons.IH add.assoc split: sum.splits)
    qed
  qed
qed

lemma anti_dic_score_mean:
  "anti_dic_score H S m =
     (case all_results (map (hmm_score H m) (other_words S)) of
        Inl e \<Rightarrow> Inl e
      | Inr scores \<Rightarrow>
          (if scores = [] then Inl ZeroDivisionError
           else Inr (sum_list scores / real (length scores))))"
  by (simp add: anti_dic_score_def anti_dic_loop_all_results other_words_def split: sum.splits)

lemma dic_model_dic_score:
  "snd (dic_model H S n) =
     (case snd (base_model H S n) of
        None \<Rightarrow> Inl AttributeError
      | Some m \<Rightarrow> (case dic_score H S m of Inl e \<Rightarrow> Inl e | Inr s \<Rightarrow> Inr (s, m)))"
  by (simp add: dic_model_def dic_score_def anti_dic_score_mean case_prod_beta
      split: option.splits sum.splits)

lemma dic_model_value:
  "snd (dic_model H S n) = Inr (s, m) \<longleftrightarrow>
     snd (base_model H S n) = Some m \<and> dic_score H S m = Inr s"
  by (auto simp: dic_model_dic_score split: option.splits sum.splits)

lemma SelectorDIC_select_returned:
  "snd (SelectorDIC_select H S) = Inr (Some m) \<Longrightarrow>
   \<exists>st. search (\<lambda>n. snd (dic_model H S n)) (verbose S)
          (range_py (min_n_components S) (max_n_components S))
          \<lparr>best_num_states = 1, best_score = NegInf,
             best_model = snd (base_model H S (n_constant S))\<rparr> = Inr st \<and>
        best_model st = Some m"
  by (auto simp: SelectorDIC_select_def case_prod_beta dic_loop_search split: sum.splits)

lemma search_best:
  assumes run: "search crit vb ns st = Inr st'" and init: "best_score st = NegInf"
    and n: "n \<in> set ns" and at: "crit n = Inr (s, m)"
  shows "\<exists>k\<in>set ns. \<exists>s' m'. crit k = Inr (s', m') \<and> s \<le> s' \<and>
           st' = \<lparr>best_num_states = k, best_score = Fin s', best_model = Some m'\<rparr>"
proof -
  from search_upper [OF run n at] have up: "ble (Fin s) (best_score st')" .
  with init have "st' \<noteq> st" by auto
  with search_origin [OF run] obtain k s' m' where k: "k \<in> set ns" "crit k = Inr (s', m')"
    "st' = \<lparr>best_num_states = k, best_score = Fin s', best_model = Some m'\<rparr>" by blast
  with up have "s \<le> s'" by simp
  with k show ?thesis by blast
qed

text \<open>
  Claim C4. The DIC score of candidate \<open>n\<close> is the score of its model on the own word's
  data minus the arithmetic mean of its scores on the data of every other word; and
  whenever \<open>SelectorDIC.select\<close> returns a model, that model has a DIC score, which is
  greater than or equal to the DIC score of every candidate of the range that fit and
  scored.
\<close>

theorem SelectorDIC_select_spec:
  "(snd (dic_model H S n) = Inr (s, m) \<longleftrightarrow>
      snd (base_model H S n) = Some m \<and> dic_score H S m = Inr s) \<and>
   (snd (SelectorDIC_select H S) = Inr (Some m') \<and>
    min_n_components S \<le> n \<and> n < max_n_components S \<and>
    snd (dic_model H S n) = Inr (s, m) \<longrightarrow>
      (\<exists>s'. dic_score H S m' = Inr s' \<and> s \<le> s'))"
proof (intro conjI impI)
  show "snd (dic_model H S n) = Inr (s, m) \<longleftrightarrow>
      snd (base_model H S n) = Some m \<and> dic_score H S m = Inr s"
    by (rule dic_model_value)
next
  assume a: "snd (SelectorDIC_select H S) = Inr (Some m') \<and>
    min_n_components S \<le> n \<and> n < max_n_components S \<and>
    snd (dic_model H S n) = Inr (s, m)"
  let ?ns = "range_py (min_n_components S) (max_n_components S)"
  from a SelectorDIC_select_returned [of H S m'] obtain st where
    st: "search (\<lambda>n. snd (dic_model H S n)) (verbose S) ?ns
          \<lparr>best_num_states = 1, best_score = NegInf,
             best_model = snd (base_model H S (n_constant S))\<rparr> = Inr st"
    "best_model st = Some m'" by blast
  from a have n: "n \<in> set ?ns" by (simp add: set_range_py)
  from a have at: "snd (dic_model H S n) = Inr (s, m)" by simp
  from search_best [OF st(1) _ n at] obtain k s' m'' where
    k: "snd (dic_model H S k) = Inr (s', m'')" "s \<le> s'"
      "st = \<lparr>best_num_states = k, best_score = Fin s', best_model = Some m''\<rparr>"
    by auto
  from k(3) st(2) have "m'' = m'" by simp
  with k(1) have "dic_score H S m' = Inr s'" by (simp add: dic_model_value)
  with k(2) show "\<exists>s'. dic_score H S m' = Inr s' \<and> s \<le> s'" by blast
qed

theorem SelectorDIC_select_spec_witness:
  "snd (dic_model (fake_hmm [3] [] (\<lambda>m d. if fst d = [[1]] then 0 else real_of_int m))
          (demo_selector [[[0]]] False 2 5) 2) = Inr (2, 2) \<and>
   snd (base_model (fake_hmm [3] [] (\<lambda>m d. if fst d = [[1]] then 0 else real_of_int m))
          (demo_selector [[[0]]] False 2 5) 2) = Some 2 \<and>
   dic_score (fake_hmm [3] [] (\<lambda>m d. if fst d = [[1]] then 0 else real_of_int m))
          (demo_selector [[[0]]] False 2 5) 2 = Inr 2 \<and>
   snd (SelectorDIC_select (fake_hmm [3] [] (\<lambda>m d. if fst d = [[1]] then 0 else real_of_int m))
          (demo_selector [[[0]]] False 2 5)) = Inr (Some 4) \<and>
   min_n_components (demo_selector [[[0]]] False 2 5) \<le> 2 \<and>
   2 < max_n_components (demo_selector [[[0]]] False 2 5) \<and>
   dic_score (fake_hmm [3] [] (\<lambda>m d. if fst d = [[1]] then 0 else real_of_int m))
          (demo_selector [[[0]]] False 2 5) 4 = Inr 4"
  using SelectorDIC_select_spec
    [of "fake_hmm [3] [] (\<lambda>m d. if fst d = [[1]] then 0 else real_of_int m)"
        "demo_selector [[[0]]] False 2 5" 2 2 2 4]
  by (simp add: SelectorDIC_select_def dic_iteration_def dic_model_def anti_dic_score_def
      base_model_def dic_score_def other_words_def range_py_def demo_selector_def fake_hmm_def)

section \<open>Properties of SelectorBIC\<close>

lemma bic_model_value:
  "snd (bic_model H S n) = Inr (s, m) \<longleftrightarrow>
     (\<exists>x0 rest logL. X S = x0 # rest \<and> snd (base_model H S n) = Some m \<and>
        hmm_score H m (X S, lengths S) = Inr logL \<and>
        s = - 2 * logL + real_of_int (n * n + 2 * n * int (length x0) - 1)
              * ln (real (length (X S))))"
  by (auto simp: bic_model_def case_prod_beta Let_def split: list.splits option.splits sum.splits)

lemma SelectorBIC_select_result:
  "snd (SelectorBIC_select H S) =
     (case search (\<lambda>n. snd (bic_model H S n)) (verbose S)
             (range_py (min_n_components S) (max_n_components S))
             \<lparr>best_num_states = 1, best_score = NegInf,
                best_model = snd (base_model H S (n_constant S))\<rparr> of
        Inl e \<Rightarrow> Inr None
      | Inr st \<Rightarrow> Inr (best_model st))"
  by (simp add: SelectorBIC_select_def case_prod_beta bic_loop_search [symmetric]
      split: sum.splits)

lemma SelectorDIC_select_result:
  "snd (SelectorDIC_select H S) =
     (case search (\<lambda>n. snd (dic_model H S n)) (verbose S)
             (range_py (min_n_components S) (max_n_components S))
             \<lparr>best_num_states = 1, best_score = NegInf,
                best_model = snd (base_model H S (n_constant S))\<rparr> of
        Inl e \<Rightarrow> Inr None
      | Inr st \<Rightarrow> Inr (best_model st))"
  by (simp add: SelectorDIC_select_def case_prod_beta dic_loop_search [symmetric]
      split: sum.splits)

lemma search_quiet_filter:
  "search crit False ns st = search crit False (filter (\<lambda>n. \<not> isl (crit n)) ns) st"
  by (induction ns arbitrary: st) (auto split: sum.splits)

lemma search_quiet_all_fail:
  "\<forall>n\<in>set ns. isl (crit n) \<Longrightarrow> search crit False ns st = Inr st"
  by (induction ns) (auto simp: isl_def)


lemma SelectorBIC_select_quiet:
  assumes "\<not> verbose S"
  shows "(\<forall>n s m. min_n_components S \<le> n \<and> n < max_n_components S \<and>
            snd (bic_model H S n) = Inr (s, m) \<longrightarrow>
            (\<exists>k s' m'. min_n_components S \<le> k \<and> k < max_n_components S \<and>
               snd (bic_model H S k) = Inr (s', m') \<and> s \<le> s' \<and>
               snd (SelectorBIC_select H S) = Inr (Some m'))) \<and>
         ((\<forall>n. min_n_components S \<le> n \<and> n < max_n_components S \<longrightarrow>
              isl (snd (bic_model H S n))) \<longrightarrow>
            snd (SelectorBIC_select H S) = Inr (snd (base_model H S (n_constant S))))"
proof (intro conjI allI impI)
  let ?crit = "\<lambda>n. snd (bic_model H S n)"
  let ?ns = "range_py (min_n_components S) (max_n_components S)"
  let ?st = "\<lparr>best_num_states = 1, best_score = NegInf,
                best_model = snd (base_model H S (n_constant S))\<rparr>"
  obtain st' where run: "search ?crit False ?ns ?st = Inr st'"
    using search_quiet_total by blast
  {
    fix n s m
    assume a: "min_n_components S \<le> n \<and> n < max_n_components S \<and>
            snd (bic_model H S n) = Inr (s, m)"
    then have "n \<in> set ?ns" by (simp add: set_range_py)
    from search_best [OF run _ this, of s m] a obtain k s' m' where
      "k \<in> set ?ns" "?crit k = Inr (s', m')" "s \<le> s'" "best_model st' = Some m'"
      by auto
    then show "\<exists>k s' m'. min_n_components S \<le> k \<and> k < max_n_components S \<and>
               snd (bic_model H S k) = Inr (s', m') \<and> s \<le> s' \<and>
               snd (SelectorBIC_select H S) = Inr (Some m')"
      using run assms by (auto simp: SelectorBIC_select_result set_range_py)
  }
  assume "\<forall>n. min_n_components S \<le> n \<and> n < max_n_components S \<longrightarrow>
              isl (snd (bic_model H S n))"
  then have "\<forall>n\<in>set ?ns. isl (?crit n)" by (simp add: set_range_py)
  then show "snd (SelectorBIC_select H S) = Inr (snd (base_model H S (n_constant S)))"
    using assms by (simp add: SelectorBIC_select_result search_quiet_all_fail)
qed

text \<open>
  Claim C3, at a failing input. With \<open>verbose\<close> set, the handler of a failed candidate
  raises \<open>NameError\<close> and \<open>select\<close> returns \<open>None\<close>: in the first selector the only
  candidate fails to fit and the model of \<open>n_constant\<close> states, which was built, is not
  returned; in the second the candidate with 2 states fit and scored and is not returned
  because the candidate with 3 states failed.
\<close>

theorem SelectorBIC_select_verbose_failure:
  "snd (bic_model (fake_hmm [2] [] (\<lambda>m d. 0)) (demo_selector [[[0]]] True 2 3) 2)
     = Inl AttributeError \<and>
   snd (base_model (fake_hmm [2] [] (\<lambda>m d. 0)) (demo_selector [[[0]]] True 2 3)
          (n_constant (demo_selector [[[0]]] True 2 3))) = Some 3 \<and>
   SelectorBIC_select (fake_hmm [2] [] (\<lambda>m d. 0)) (demo_selector [[[0]]] True 2 3)
     = ([ModelCreated ''A'' 3, FailureOn ''A'' 2], Inr None) \<and>
   snd (SelectorBIC_select (fake_hmm [2] [] (\<lambda>m d. 0)) (demo_selector [[[0]]] False 2 3))
     = Inr (Some 3) \<and>
   snd (bic_model (fake_hmm [3] [] (\<lambda>m d. 0)) (demo_selector [[[0]]] True 2 4) 2)
     = Inr (0, 2) \<and>
   snd (SelectorBIC_select (fake_hmm [3] [] (\<lambda>m d. 0)) (demo_selector [[[0]]] True 2 4))
     = Inr None \<and>
   snd (SelectorBIC_select (fake_hmm [3] [] (\<lambda>m d. 0)) (demo_selector [[[0]]] False 2 4))
     = Inr (Some 2)"
  by (simp add: SelectorBIC_select_def bic_iteration_def bic_model_def base_model_def
      range_py_def demo_selector_def fake_hmm_def)

section \<open>Failures of a candidate\<close>

lemma bic_loop_quiet:
  assumes "\<not> verbose S"
  shows "snd (bic_loop H S ns st) =
           snd (bic_loop H S (filter (\<lambda>n. \<not> isl (snd (bic_model H S n))) ns) st)"
    and "\<exists>st'. snd (bic_loop H S ns st) = Inr st'"
  using assms search_quiet_filter [of "\<lambda>n. snd (bic_model H S n)" ns st]
    search_quiet_total [of "\<lambda>n. snd (bic_model H S n)" ns st]
  by (simp_all add: bic_loop_search)

lemma dic_loop_quiet:
  assumes "\<not> verbose S"
  shows "snd (dic_loop H S ns st) =
           snd (dic_loop H S (filter (\<lambda>n. \<not> isl (snd (dic_model H S n))) ns) st)"
    and "\<exists>st'. snd (dic_loop H S ns st) = Inr st'"
  using assms search_quiet_filter [of "\<lambda>n. snd (dic_model H S n)" ns st]
    search_quiet_total [of "\<lambda>n. snd (dic_model H S n)" ns st]
  by (simp_all add: dic_loop_search)

lemma cv_loop_fails:
  "n \<in> set ns \<Longrightarrow> snd (cross_validation_model H S n 3) = Inl e \<Longrightarrow>
   \<exists>e'. snd (cv_loop H S ns st) = Inl e'"
  using cv_search_fails [of n ns "\<lambda>n. snd (cross_validation_model H S n 3)" e st]
  by (simp add: cv_loop_search)

text \<open>
  Claim C1, as amended. In \<open>SelectorBIC\<close> and \<open>SelectorDIC\<close> with \<open>verbose\<close> off, a
  candidate that fails to fit or score is caught in its iteration and only disqualified:
  the loop returns, and returns what it would return without the failing candidates. In
  \<open>SelectorCV\<close> there is no handler in the loop: a candidate that fails ends the loop
  with an exception, and \<open>select\<close> returns \<open>None\<close>.
\<close>

theorem candidate_failure_policy:
  "(\<not> verbose S \<longrightarrow>
      snd (bic_loop H S ns st) =
        snd (bic_loop H S (filter (\<lambda>n. \<not> isl (snd (bic_model H S n))) ns) st) \<and>
      (\<exists>st'. snd (bic_loop H S ns st) = Inr st') \<and>
      snd (dic_loop H S ns st) =
        snd (dic_loop H S (filter (\<lambda>n. \<not> isl (snd (dic_model H S n))) ns) st) \<and>
      (\<exists>st'. snd (dic_loop H S ns st) = Inr st')) \<and>
   (n \<in> set ns \<and> snd (cross_validation_model H S n 3) = Inl e \<longrightarrow>
      (\<exists>e'. snd (cv_loop H S ns st) = Inl e')) \<and>
   (min_n_components S \<le> n \<and> n < max_n_components S \<and>
    snd (cross_validation_model H S n 3) = Inl e \<longrightarrow>
      snd (SelectorCV_select H S) = Inr None)"
  using bic_loop_quiet [of S H ns st] dic_loop_quiet [of S H ns st]
    cv_loop_fails [of n ns H S e st] SelectorCV_select_aborts [of S n H e]
  by blast

theorem candidate_failure_policy_witness:
  "\<not> verbose (demo_selector [[[0]], [[1]], [[2]], [[3]]] False 2 5) \<and>
   snd (bic_model (fake_hmm [3] [] (\<lambda>m d. 1)) (demo_selector [[[0]], [[1]], [[2]], [[3]]] False 2 5) 3)
     = Inl AttributeError \<and>
   snd (bic_loop (fake_hmm [3] [] (\<lambda>m d. 1)) (demo_selector [[[0]], [[1]], [[2]], [[3]]] False 2 5)
          [2, 3, 4] \<lparr>best_num_states = 1, best_score = NegInf, best_model = None\<rparr>)
     = snd (bic_loop (fake_hmm [3] [] (\<lambda>m d. 1)) (demo_selector [[[0]], [[1]], [[2]], [[3]]] False 2 5)
          [2, 4] \<lparr>best_num_states = 1, best_score = NegInf, best_model = None\<rparr>) \<and>
   snd (dic_loop (fake_hmm [3] [] (\<lambda>m d. 1)) (demo_selector [[[0]], [[1]], [[2]], [[3]]] False 2 5)
          [2, 3, 4] \<lparr>best_num_states = 1, best_score = NegInf, best_model = None\<rparr>)
     = Inr \<lparr>best_num_states = 2, best_score = Fin 0, best_model = Some 2\<rparr> \<and>
   snd (cross_validation_model (fake_hmm [3] [] (\<lambda>m d. 1))
          (demo_selector [[[0]], [[1]], [[2]], [[3]]] False 2 5) 3 3) = Inl FitFailure \<and>
   snd (SelectorCV_select (fake_hmm [3] [] (\<lambda>m d. 1))
          (demo_selector [[[0]], [[1]], [[2]], [[3]]] False 2 5)) = Inr None"
proof -
  let ?H = "fake_hmm [3] [] (\<lambda>m d. 1)"
  let ?S = "demo_selector [[[0]], [[1]], [[2]], [[3]]] False 2 5"
  let ?st = "\<lparr>best_num_states = 1, best_score = NegInf, best_model = None\<rparr> :: int best"
  have q: "\<not> verbose ?S" and mn: "min_n_components ?S = 2" and mx: "max_n_components ?S = 5"
    by (simp_all add: demo_selector_def)
  have bic: "snd (bic_model ?H ?S k) = (if k = 3 then Inl AttributeError
      else Inr (- 2 + real_of_int (k * k + 2 * k * 1 - 1) * ln 4, k))" for k
    by (simp add: bic_model_def base_model_def demo_selector_def fake_hmm_def)
  have dic: "snd (dic_model ?H ?S k) = (if k = 3 then Inl AttributeError else Inr (0, k))" for k
    by (simp add: dic_model_def anti_dic_score_def base_model_def demo_selector_def fake_hmm_def)
  have cv: "snd (cross_validation_model ?H ?S 3 3) = Inl FitFailure"
    by (simp add: fake_cross_validation_model)
  note t = candidate_failure_policy [of ?S ?H "[2, 3, 4]" ?st 3 FitFailure]
  from t q have a: "snd (bic_loop ?H ?S [2, 3, 4] ?st) = snd (bic_loop ?H ?S [2, 4] ?st)"
    by (simp add: bic)
  from t q have b: "snd (dic_loop ?H ?S [2, 3, 4] ?st) =
      Inr \<lparr>best_num_states = 2, best_score = Fin 0, best_model = Some 2\<rparr>"
    by (simp add: dic dic_iteration_def case_prod_beta)
  from t cv have c: "snd (SelectorCV_select ?H ?S) = Inr None"
    by (simp add: mn mx)
  from q a b c cv show ?thesis by (simp add: bic)
qed

text \<open>
  The claim as stated fails for \<open>SelectorCV\<close>: the candidate with 2 states fails to fit,
  the candidate with 3 states would evaluate, and the loop over both ends with the
  exception of the first, so that \<open>select\<close> returns \<open>None\<close>; the loop over the second
  alone returns its model.
\<close>

theorem candidate_failure_counterexample:
  "snd (cross_validation_model (fake_hmm [2] [] (\<lambda>m d. 1))
          (demo_selector [[[0]], [[1]], [[2]], [[3]]] False 2 4) 2 3) = Inl FitFailure \<and>
   snd (cross_validation_model (fake_hmm [2] [] (\<lambda>m d. 1))
          (demo_selector [[[0]], [[1]], [[2]], [[3]]] False 2 4) 3 3) = Inr (1, Some 3) \<and>
   snd (cv_loop (fake_hmm [2] [] (\<lambda>m d. 1))
          (demo_selector [[[0]], [[1]], [[2]], [[3]]] False 2 4) [2, 3]
          \<lparr>best_num_states = 0, best_score = NegInf, best_model = None\<rparr>) = Inl FitFailure \<and>
   snd (cv_loop (fake_hmm [2] [] (\<lambda>m d. 1))
          (demo_selector [[[0]], [[1]], [[2]], [[3]]] False 2 4) [3]
          \<lparr>best_num_states = 0, best_score = NegInf, best_model = None\<rparr>)
     = Inr \<lparr>best_num_states = 0, best_score = Fin 1, best_model = Some 3\<rparr> \<and>
   snd (SelectorCV_select (fake_hmm [2] [] (\<lambda>m d. 1))
          (demo_selector [[[0]], [[1]], [[2]], [[3]]] False 2 4)) = Inr None"
proof -
  let ?H = "fake_hmm [2] [] (\<lambda>m d. 1)"
  let ?S = "demo_selector [[[0]], [[1]], [[2]], [[3]]] False 2 4"
  have mn: "min_n_components ?S = 2" and mx: "max_n_components ?S = 4"
    by (simp_all add: demo_selector_def)
  have "snd (SelectorCV_select ?H ?S) = Inr None"
    by (simp add: SelectorCV_select_def case_prod_beta cv_loop_search range_py_def mn mx
        fake_cross_validation_model del: cv_loop.simps)
  then show ?thesis
    by (simp add: cv_loop_search fake_cross_validation_model del: cv_loop.simps)
qed

section \<open>When select returns None\<close>














section \<open>The folds of KFold\<close>

lemma sum_list_fold_sizes: "0 < k \<Longrightarrow> sum_list (fold_sizes k n) = n"
proof -
  assume k: "0 < k"
  have "sum_list (fold_sizes k n) = (\<Sum>i<k. n div k + (if i < n mod k then 1 else 0))"
    by (simp add: fold_sizes_def sum_list_sum_nth atLeast0LessThan)
  also have "\<dots> = k * (n div k) + (\<Sum>i<k. if i < n mod k then 1 else 0)"
    by (simp add: sum.distrib)
  also have "(\<Sum>i<k. if i < n mod k then 1 else (0::nat)) = card ({..<k} \<inter> {i. i < n mod k})"
    by (simp add: sum.If_cases)
  also have "{..<k} \<inter> {i. i < n mod k} = {..<n mod k}"
    using k by (auto intro: less_trans [OF _ mod_less_divisor])
  finally show ?thesis by simp
qed

lemma KFold_from_partition:
  "c + sum_list szs = n \<Longrightarrow> f \<in> set (KFold_from n c szs) \<Longrightarrow>
   set (fst f) \<union> set (snd f) = {0..<n} \<and> set (fst f) \<inter> set (snd f) = {}"
proof (induction szs arbitrary: c)
  case Nil
  then show ?case by simp
next
  case (Cons sz szs)
  from Cons.prems(2) consider
    "f = ([0..<c] @ [c + sz..<n], [c..<c + sz])" | "f \<in> set (KFold_from n (c + sz) szs)"
    by auto
  then show ?case
  proof cases
    case 1
    with Cons.prems(1) show ?thesis by auto
  next
    case 2
    from Cons.prems(1) have "(c + sz) + sum_list szs = n" by simp
    from Cons.IH [OF this 2] show ?thesis .
  qed
qed

lemma KFold_from_tests:
  "concat (map snd (KFold_from n c szs)) = [c..<c + sum_list szs]"
proof (induction szs arbitrary: c)
  case Nil
  show ?case by simp
next
  case (Cons sz szs)
  have "[c..<c + sz] @ [c + sz..<c + sz + sum_list szs] = [c..<c + sz + sum_list szs]"
    using upt_add_eq_append [of c "c + sz" "sum_list szs"] by simp
  with Cons.IH [of "c + sz"] show ?case by (simp add: add.assoc)
qed

lemma KFold_split_partition:
  assumes "0 < k" and "f \<in> set (KFold_split k n)"
  shows "set (fst f) \<union> set (snd f) = {0..<n} \<and> set (fst f) \<inter> set (snd f) = {}"
  using KFold_from_partition [of 0 "fold_sizes k n" n f] assms
  by (simp add: KFold_split_def sum_list_fold_sizes)

lemma KFold_split_tests: "0 < k \<Longrightarrow> concat (map snd (KFold_split k n)) = [0..<n]"
  by (simp add: KFold_split_def KFold_from_tests sum_list_fold_sizes)

lemma combine_sequences_in_range:
  "set idxs \<subseteq> {0..<length seqs} \<Longrightarrow>
   combine_sequences idxs seqs =
     Inr (concat (map (\<lambda>idx. seqs ! idx) idxs), map (\<lambda>idx. length (seqs ! idx)) idxs)"
  by (auto simp: combine_sequences_def list_all_iff)

lemma fold_eval_KFold:
  assumes "0 < k" and "f \<in> set (KFold_split k (length (sequences S)))"
  shows "fold_eval H S n f =
     (case hmm_fit H n (random_state S)
             (concat (map (\<lambda>idx. sequences S ! idx) (fst f)),
              map (\<lambda>idx. length (sequences S ! idx)) (fst f)) of
        Inl e \<Rightarrow> Inl e
      | Inr m \<Rightarrow>
          (case hmm_score H m
                  (concat (map (\<lambda>idx. sequences S ! idx) (snd f)),
                   map (\<lambda>idx. length (sequences S ! idx)) (snd f)) of
             Inl e \<Rightarrow> Inl e
           | Inr s \<Rightarrow> Inr (s, m)))"
proof -
  from KFold_split_partition [OF assms]
  have "set (fst f) \<subseteq> {0..<length (sequences S)}" "set (snd f) \<subseteq> {0..<length (sequences S)}"
    by blast+
  then show ?thesis
    by (simp add: fold_eval_def combine_sequences_in_range)
qed

section \<open>The handler with verbose set\<close>

lemma SelectorBIC_select_verbose_abort:
  assumes "verbose S" "min_n_components S \<le> n" "n < max_n_components S"
    "isl (snd (bic_model H S n))"
  shows "snd (SelectorBIC_select H S) = Inr None"
proof -
  from assms(2-4) have "\<exists>n\<in>set (range_py (min_n_components S) (max_n_components S)).
      isl (snd (bic_model H S n))"
    by (auto simp: set_range_py)
  then obtain e where "search (\<lambda>n. snd (bic_model H S n)) True
      (range_py (min_n_components S) (max_n_components S))
      \<lparr>best_num_states = 1, best_score = NegInf,
         best_model = snd (base_model H S (n_constant S))\<rparr> = Inl e"
    using search_verbose_abort_iff by blast
  with assms(1) show ?thesis by (simp add: SelectorBIC_select_result)
qed

lemma SelectorDIC_select_verbose_abort:
  assumes "verbose S" "min_n_components S \<le> n" "n < max_n_components S"
    "isl (snd (dic_model H S n))"
  shows "snd (SelectorDIC_select H S) = Inr None"
proof -
  from assms(2-4) have "\<exists>n\<in>set (range_py (min_n_components S) (max_n_components S)).
      isl (snd (dic_model H S n))"
    by (auto simp: set_range_py)
  then obtain e where "search (\<lambda>n. snd (dic_model H S n)) True
      (range_py (min_n_components S) (max_n_components S))
      \<lparr>best_num_states = 1, best_score = NegInf,
         best_model = snd (base_model H S (n_constant S))\<rparr> = Inl e"
    using search_verbose_abort_iff by blast
  with assms(1) show ?thesis by (simp add: SelectorDIC_select_result)
qed

end
